theory Spec2Isabelle
  imports Main
begin

section \<open>html-tool: extraction strategies, consumer and input loop of main.go\<close>

text \<open>
  Go strings are byte sequences (UTF-8 by convention); they are modelled as \<open>string\<close>,
  one \<open>char\<close> per byte. The external packages the program calls (the HTML tokenizer and
  parser, the CSS selector engine, net/url, net/http, os) are not part of the repository:
  the tokens and the tree of a document are data of the reader, and the remaining library
  functions are parameters of the functions that call them.
\<close>

subsection \<open>The functions of package strings that main.go calls\<close>

definition HasPrefix :: "string \<Rightarrow> string \<Rightarrow> bool" where
  \<comment> \<open>strings.HasPrefix(s, prefix)\<close>
  "HasPrefix s p = (take (length p) s = p)"

definition lowerByte :: "char \<Rightarrow> char" where
  "lowerByte c =
     (case map_of (zip ''ABCDEFGHIJKLMNOPQRSTUVWXYZ'' ''abcdefghijklmnopqrstuvwxyz'') c of
        Some l \<Rightarrow> l
      | None \<Rightarrow> c)"

definition ToLower :: "string \<Rightarrow> string" where
  \<comment> \<open>strings.ToLower on the ASCII letters. main.go only tests the result for the prefixes
      http: and https:, and no rune outside ASCII has h, t, p or s as its lower case.\<close>
  "ToLower s = map lowerByte s"

definition spaceRunes :: "string list" where
  \<comment> \<open>The UTF-8 encodings of the runes with unicode.IsSpace: tab, LF, VT, FF, CR, space,
      U+0085, U+00A0, U+1680, U+2000 to U+200A, U+2028, U+2029, U+202F, U+205F, U+3000.\<close>
  "spaceRunes =
     [[CHR 0x09], [CHR 0x0A], [CHR 0x0B], [CHR 0x0C], [CHR 0x0D], [CHR 0x20],
      [CHR 0xC2, CHR 0x85], [CHR 0xC2, CHR 0xA0], [CHR 0xE1, CHR 0x9A, CHR 0x80],
      [CHR 0xE2, CHR 0x80, CHR 0x80], [CHR 0xE2, CHR 0x80, CHR 0x81],
      [CHR 0xE2, CHR 0x80, CHR 0x82], [CHR 0xE2, CHR 0x80, CHR 0x83],
      [CHR 0xE2, CHR 0x80, CHR 0x84], [CHR 0xE2, CHR 0x80, CHR 0x85],
      [CHR 0xE2, CHR 0x80, CHR 0x86], [CHR 0xE2, CHR 0x80, CHR 0x87],
      [CHR 0xE2, CHR 0x80, CHR 0x88], [CHR 0xE2, CHR 0x80, CHR 0x89],
      [CHR 0xE2, CHR 0x80, CHR 0x8A], [CHR 0xE2, CHR 0x80, CHR 0xA8],
      [CHR 0xE2, CHR 0x80, CHR 0xA9], [CHR 0xE2, CHR 0x80, CHR 0xAF],
      [CHR 0xE2, CHR 0x81, CHR 0x9F], [CHR 0xE3, CHR 0x80, CHR 0x80]]"

definition leadLen :: "string list \<Rightarrow> string \<Rightarrow> nat" where
  \<comment> \<open>The length of the first of the given byte sequences that \<open>s\<close> starts with, 0 when
      it starts with none of them.\<close>
  "leadLen pats s =
     (case filter (\<lambda>p. p \<noteq> [] \<and> take (length p) s = p) pats of
        [] \<Rightarrow> 0
      | p # _ \<Rightarrow> length p)"

function trimLead :: "string list \<Rightarrow> string \<Rightarrow> string" where
  "trimLead pats s = (if leadLen pats s = 0 then s else trimLead pats (drop (leadLen pats s) s))"
  by pat_completeness auto
termination
proof (relation "measure (\<lambda>(pats, s). length s)")
  show "wf (measure (\<lambda>(pats, s). length s))"
    by simp
next
  fix pats :: "string list" and s :: string
  assume pos: "leadLen pats s \<noteq> 0"
  have "s \<noteq> []"
  proof
    assume "s = []"
    then have "filter (\<lambda>p. p \<noteq> [] \<and> take (length p) s = p) pats = []"
      by (induction pats) auto
    then have "leadLen pats s = 0"
      by (simp add: leadLen_def)
    with pos show False
      by simp
  qed
  with pos show "((pats, drop (leadLen pats s) s), (pats, s)) \<in> measure (\<lambda>(pats, s). length s)"
    by simp
qed

declare trimLead.simps [simp del]

definition TrimSpace :: "string \<Rightarrow> string" where
  \<comment> \<open>strings.TrimSpace: the leading and the trailing white-space runes are removed. A
      trailing rune is a leading one of the reversed bytes.\<close>
  "TrimSpace s = rev (trimLead (map rev spaceRunes) (rev (trimLead spaceRunes s)))"

definition ReplaceByte :: "string \<Rightarrow> char \<Rightarrow> char \<Rightarrow> string" where
  \<comment> \<open>strings.Replace(s, old, new, -1) for one-byte \<open>old\<close> and \<open>new\<close>, as main.go calls it\<close>
  "ReplaceByte s old new = map (\<lambda>c. if c = old then new else c) s"

subsection \<open>Tokens and the tokenizer (golang.org/x/net/html)\<close>

datatype TokenType =
  TextToken | StartTagToken | EndTagToken | SelfClosingTagToken | CommentToken | DoctypeToken

record Attribute =
  Key :: string
  Val :: string

record Token =
  Type :: TokenType
  Data :: string
  Attr :: "Attribute list"

text \<open>
  A tokenizer is the list of the tokens it has still to return. \<open>Next\<close> is \<open>z.Next()\<close>
  followed by \<open>z.Token()\<close>: \<open>None\<close> stands for html.ErrorToken (end of input or a read
  error), which the tokenizer keeps returning once it has returned it.
\<close>

type_synonym Tokenizer = "Token list"

fun Next :: "Tokenizer \<Rightarrow> Token option \<times> Tokenizer" where
  "Next [] = (None, [])"
| "Next (t # z) = (Some t, z)"

subsection \<open>Documents, readers and targets\<close>

datatype Node = Node (NodeData: string) (Children: "Node list")

definition FirstChild :: "Node \<Rightarrow> Node option" where
  \<comment> \<open>the field FirstChild of html.Node, \<open>None\<close> for nil\<close>
  "FirstChild n = (case Children n of [] \<Rightarrow> None | c # _ \<Rightarrow> Some c)"

text \<open>
  An \<open>io.ReadCloser\<close> holding a document is read by html.NewTokenizer or by html.Parse.
  The model of the reader carries what each of them makes of its bytes: the tokens the
  tokenizer returns before its first ErrorToken, and the result of html.Parse (an error
  or the root of the tree).
\<close>

record Reader =
  tokens :: "Token list"
  parsed :: "string + Node"

record target =
  location :: string
  r :: Reader

record URL =
  \<comment> \<open>the fields of url.URL that main.go reads\<close>
  Scheme :: string
  Host :: string
  Path :: string

subsection \<open>extractComments\<close>

fun commentsLoop :: "Tokenizer \<Rightarrow> string list \<Rightarrow> string list" where
  "commentsLoop [] out = out"
| "commentsLoop (t # z) out =
     (if Type t = CommentToken then
        (let d = ReplaceByte (Data t) (CHR 0x0A) (CHR 0x20);
             d = TrimSpace d
         in if d = [] then commentsLoop z out else commentsLoop z (out @ [d]))
      else commentsLoop z out)"

definition extractComments :: "Reader \<Rightarrow> string list" where
  "extractComments rd = commentsLoop (tokens rd) []"

subsection \<open>extractAttribs\<close>

text \<open>
  \<open>ParseRequestURI\<close> is url.ParseRequestURI: \<open>Inl\<close> carries the error, and the
  pointer it returns beside an error is nil. Reading a field through the nil pointer
  panics, which ends the whole program.
\<close>

datatype panic = NilPointerDereference

text \<open>
  The body of \<open>if attrib == a.Key\<close> (lines 225 to 247). Go's \<open>&&\<close> binds tighter than
  \<open>||\<close>, and so does \<open>\<and>\<close> against \<open>\<or>\<close>. The \<open>continue\<close> of line 240 is the
  last statement of its iteration.
\<close>

definition matchedAttrib ::
  "(string \<Rightarrow> string + URL) \<Rightarrow> string \<Rightarrow> Attribute \<Rightarrow> string \<Rightarrow> string list
    \<Rightarrow> panic + string list" where
  "matchedAttrib ParseRequestURI loc a attrib out =
     (let nl = ToLower loc in
      if HasPrefix nl ''http:'' \<or> HasPrefix nl ''https:'' \<and> (attrib = ''src'' \<or> attrib = ''href'')
      then
        (let u = (case ParseRequestURI loc of Inl err \<Rightarrow> None | Inr v \<Rightarrow> Some v);
             out = (case ParseRequestURI loc of Inl err \<Rightarrow> out @ [Val a] | Inr v \<Rightarrow> out)
         in if HasPrefix (Val a) ''//'' then Inr (out @ [''https:'' @ Val a])
            else if HasPrefix (Val a) ''/'' then
              (case u of
                 None \<Rightarrow> Inl NilPointerDereference
               | Some u \<Rightarrow> Inr (out @ [Scheme u @ ''://'' @ Host u @ Val a]))
            else
              (case ParseRequestURI (Val a) of
                 Inl err \<Rightarrow>
                   (case u of
                      None \<Rightarrow> Inl NilPointerDereference
                    | Some u \<Rightarrow> Inr (out @ [Scheme u @ ''://'' @ Host u @ Path u @ Val a]))
               | Inr v \<Rightarrow> Inr (out @ [Val a])))
      else Inr (out @ [Val a]))"

fun attribsLoop ::
  "(string \<Rightarrow> string + URL) \<Rightarrow> string \<Rightarrow> Attribute \<Rightarrow> string list \<Rightarrow> string list
    \<Rightarrow> panic + string list" where
  \<comment> \<open>\<open>for _, attrib := range attribs\<close>\<close>
  "attribsLoop P loc a [] out = Inr out"
| "attribsLoop P loc a (attrib # attribs) out =
     (if attrib = Key a then
        (case matchedAttrib P loc a attrib out of
           Inl p \<Rightarrow> Inl p
         | Inr out \<Rightarrow> attribsLoop P loc a attribs out)
      else attribsLoop P loc a attribs out)"

fun attrLoop ::
  "(string \<Rightarrow> string + URL) \<Rightarrow> string \<Rightarrow> Attribute list \<Rightarrow> string list \<Rightarrow> string list
    \<Rightarrow> panic + string list" where
  \<comment> \<open>\<open>for _, a := range t.Attr\<close>\<close>
  "attrLoop P loc [] attribs out = Inr out"
| "attrLoop P loc (a # as) attribs out =
     (if Val a = [] then attrLoop P loc as attribs out
      else
        (case attribsLoop P loc a attribs out of
           Inl p \<Rightarrow> Inl p
         | Inr out \<Rightarrow> attrLoop P loc as attribs out))"

fun attribTokens ::
  "(string \<Rightarrow> string + URL) \<Rightarrow> string \<Rightarrow> Tokenizer \<Rightarrow> string list \<Rightarrow> string list
    \<Rightarrow> panic + string list" where
  \<comment> \<open>the \<open>for\<close> loop over the tokens\<close>
  "attribTokens P loc [] attribs out = Inr out"
| "attribTokens P loc (t # z) attribs out =
     (case attrLoop P loc (Attr t) attribs out of
        Inl p \<Rightarrow> Inl p
      | Inr out \<Rightarrow> attribTokens P loc z attribs out)"

definition extractAttribs ::
  "(string \<Rightarrow> string + URL) \<Rightarrow> target \<Rightarrow> string list \<Rightarrow> panic + string list" where
  "extractAttribs ParseRequestURI tar attribs =
     attribTokens ParseRequestURI (location tar) (tokens (r tar)) attribs []"

subsection \<open>extractTags\<close>

fun tagsRange :: "Token \<Rightarrow> string list \<Rightarrow> Tokenizer \<Rightarrow> string list \<Rightarrow> Tokenizer \<times> string list" where
  \<comment> \<open>\<open>for _, tag := range tags\<close>: every requested name equal to \<open>t.Data\<close> calls
      \<open>z.Next()\<close> once\<close>
  "tagsRange t [] z out = (z, out)"
| "tagsRange t (tag # tags) z out =
     (if Data t = tag then
        (case Next z of
           (Some n, z') \<Rightarrow>
             (if Type n = TextToken then
                (let text = TrimSpace (Data n)
                 in if text = [] then tagsRange t tags z' out
                    else tagsRange t tags z' (out @ [text]))
              else tagsRange t tags z' out)
         | (None, z') \<Rightarrow> tagsRange t tags z' out)
      else tagsRange t tags z out)"

function tagsLoop :: "Tokenizer \<Rightarrow> string list \<Rightarrow> string list \<Rightarrow> string list" where
  "tagsLoop z tags out =
     (case Next z of
        (None, z') \<Rightarrow> out
      | (Some t, z') \<Rightarrow>
          (if Type t = StartTagToken then
             (case tagsRange t tags z' out of (z'', out') \<Rightarrow> tagsLoop z'' tags out')
           else tagsLoop z' tags out))"
  by pat_completeness auto
termination
proof (relation "measure (\<lambda>(z, tags, out). length z)")
  show "wf (measure (\<lambda>(z, tags, out). length z))"
    by simp
next
  fix z :: Tokenizer and tags out :: "string list" and x z' t z'' out'
  assume nx: "(x, z') = Next z" "x = Some t"
    and rg: "(z'', out') = tagsRange t tags z' out"
  have shrink: "length (fst (tagsRange t ts y acc)) \<le> length y" for ts y acc
  proof (induction ts arbitrary: y acc)
    case Nil
    show ?case by simp
  next
    case (Cons tag ts)
    show ?case
    proof (cases y)
      case Nil
      with Cons.IH [of "[]"] show ?thesis by simp
    next
      case (Cons n y')
      with Cons.IH [of y'] Cons.IH [of y] show ?thesis
        by (auto simp: Let_def intro: le_SucI)
    qed
  qed
  from rg have "z'' = fst (tagsRange t tags z' out)"
    by (metis fst_conv)
  with shrink [of tags z' out] have "length z'' \<le> length z'"
    by simp
  moreover from nx have "length z' < length z"
    by (cases z) auto
  ultimately show "((z'', tags, out'), (z, tags, out)) \<in> measure (\<lambda>(z, tags, out). length z)"
    by simp
next
  fix z :: Tokenizer and tags out :: "string list" and x z' t
  assume "(x, z') = Next z" "x = Some t"
  then show "((z', tags, out), (z, tags, out)) \<in> measure (\<lambda>(z, tags, out). length z)"
    by (cases z) auto
qed

declare tagsLoop.simps [simp del]

definition extractTags :: "Reader \<Rightarrow> string list \<Rightarrow> string list" where
  "extractTags rd tags = tagsLoop (tokens rd) tags []"

subsection \<open>extractSelector\<close>

fun selectRange :: "Node list \<Rightarrow> string list \<Rightarrow> string list" where
  \<comment> \<open>\<open>for _, ele := range sel.Select(node)\<close>\<close>
  "selectRange [] out = out"
| "selectRange (ele # eles) out =
     (case FirstChild ele of
        None \<Rightarrow> selectRange eles out
      | Some c \<Rightarrow> selectRange eles (out @ [NodeData c]))"

definition extractSelector ::
  "(string \<Rightarrow> string + 's) \<Rightarrow> ('s \<Rightarrow> Node \<Rightarrow> Node list) \<Rightarrow> Reader \<Rightarrow> string
    \<Rightarrow> string list \<times> string option" where
  \<comment> \<open>\<open>cssParse\<close> is css.Parse and \<open>Select\<close> the selector's method; the second component
      of the result is the error, \<open>None\<close> for nil\<close>
  "extractSelector cssParse Select rd selector =
     (case cssParse selector of
        Inl err \<Rightarrow> ([], Some err)
      | Inr sel \<Rightarrow>
          (case parsed rd of
             Inl err \<Rightarrow> ([], Some err)
           | Inr node \<Rightarrow> (selectRange (Select sel node) [], None)))"

subsection \<open>The consumer of the targets (lines 60 to 92 of main)\<close>

text \<open>
  What the program does to the outside is a list of effects, in the order they happen.
  The requests and the targets of \<open>Do\<close> and \<open>Send\<close> are those handed to the fetch
  pipeline and to the channel \<open>targets\<close>.
\<close>

record Request =
  reqURL :: string  \<comment> \<open>what \<open>req.URL.String()\<close> returns\<close>
  Header :: "(string \<times> string) list"

record Response =
  Body :: "Reader option"  \<comment> \<open>\<open>None\<close> for a nil body\<close>

datatype Effect =
  Stdout string | Stderr string | Close Reader | Do Request | Send target

text \<open>The readers closed, the lines written to stderr and those written to stdout.\<close>

fun closes :: "Effect list \<Rightarrow> Reader list" where
  "closes [] = []"
| "closes (Close rd # es) = rd # closes es"
| "closes (e # es) = closes es"

fun stderrs :: "Effect list \<Rightarrow> string list" where
  "stderrs [] = []"
| "stderrs (Stderr m # es) = m # stderrs es"
| "stderrs (e # es) = stderrs es"

fun stdouts :: "Effect list \<Rightarrow> string list" where
  "stdouts [] = []"
| "stdouts (Stdout v # es) = v # stdouts es"
| "stdouts (e # es) = stdouts es"

fun sends :: "Effect list \<Rightarrow> target list" where
  "sends [] = []"
| "sends (Send t # es) = t # sends es"
| "sends (e # es) = sends es"

definition Arg1 :: "string list \<Rightarrow> string" where
  \<comment> \<open>\<open>flag.Arg(1)\<close>, read from \<open>args = flag.Args()[1:]\<close>: the empty string when absent\<close>
  "Arg1 args = (case args of [] \<Rightarrow> [] | a # _ \<Rightarrow> a)"

definition switchMode ::
  "(string \<Rightarrow> string + URL) \<Rightarrow> (string \<Rightarrow> string + 's) \<Rightarrow> ('s \<Rightarrow> Node \<Rightarrow> Node list)
    \<Rightarrow> string \<Rightarrow> string list \<Rightarrow> target \<Rightarrow> panic + (string list \<times> Effect list)" where
  \<comment> \<open>the \<open>switch mode\<close> of lines 64 to 82: the values and what it writes to stderr\<close>
  "switchMode P cssParse Select mode args t =
     (if mode = ''tags'' then Inr (extractTags (r t) args, [])
      else if mode = ''attribs'' then
        (case extractAttribs P t args of
           Inl p \<Rightarrow> Inl p
         | Inr vals \<Rightarrow> Inr (vals, []))
      else if mode = ''comments'' then Inr (extractComments (r t), [])
      else if mode = ''query'' then
        (case extractSelector cssParse Select (r t) (Arg1 args) of
           (vals, Some err) \<Rightarrow>
             Inr (vals, [Stderr (''failed to parse CSS selector: '' @ err @ ''\<newline>'')])
         | (vals, None) \<Rightarrow> Inr (vals, []))
      else Inr ([], [Stderr (''unsupported mode '' @ [CHR 0x27] @ mode @ [CHR 0x27] @ ''\<newline>'')]))"

fun consumer ::
  "(string \<Rightarrow> string + URL) \<Rightarrow> (string \<Rightarrow> string + 's) \<Rightarrow> ('s \<Rightarrow> Node \<Rightarrow> Node list)
    \<Rightarrow> string \<Rightarrow> string list \<Rightarrow> target list \<Rightarrow> Effect list \<Rightarrow> Effect list \<times> panic option" where
  \<comment> \<open>\<open>for t := range targets\<close>, over the targets in the order the channel delivers
      them; a panic ends the program with the effects so far\<close>
  "consumer P cssParse Select mode args [] effs = (effs, None)"
| "consumer P cssParse Select mode args (t # ts) effs =
     (case switchMode P cssParse Select mode args t of
        Inl p \<Rightarrow> (effs, Some p)
      | Inr (vals, diags) \<Rightarrow>
          consumer P cssParse Select mode args ts
            (effs @ diags @ map Stdout vals @ [Close (r t)]))"

subsection \<open>The input loop (lines 99 to 142 of main) and the fetch callback\<close>

definition SplitN2 :: "string \<Rightarrow> char \<Rightarrow> string list" where
  \<comment> \<open>\<open>strings.SplitN(s, sep, 2)\<close> for a one-byte separator\<close>
  "SplitN2 s sep =
     (if sep \<in> set s then [takeWhile (\<lambda>c. c \<noteq> sep) s, drop 1 (dropWhile (\<lambda>c. c \<noteq> sep) s)]
      else [s])"

fun headersRange ::
  "((string \<times> string) list \<Rightarrow> string \<Rightarrow> string \<Rightarrow> (string \<times> string) list) \<Rightarrow> string list
    \<Rightarrow> Request \<Rightarrow> Request" where
  \<comment> \<open>\<open>for _, h := range headers\<close>; \<open>HeaderSet\<close> is http.Header.Set\<close>
  "headersRange HeaderSet [] req = req"
| "headersRange HeaderSet (h # hs) req =
     (case SplitN2 h (CHR '':'') of
        [k, v] \<Rightarrow> headersRange HeaderSet hs (req\<lparr>Header := HeaderSet (Header req) k v\<rparr>)
      | _ \<Rightarrow> headersRange HeaderSet hs req)"

fun scanLoop ::
  "(string \<Rightarrow> string + Request)
    \<Rightarrow> ((string \<times> string) list \<Rightarrow> string \<Rightarrow> string \<Rightarrow> (string \<times> string) list)
    \<Rightarrow> (string \<Rightarrow> string + Reader) \<Rightarrow> string list \<Rightarrow> string list \<Rightarrow> Effect list
    \<Rightarrow> Effect list \<times> bool" where
  \<comment> \<open>\<open>for sc.Scan()\<close> over the lines of stdin. \<open>NewRequest\<close> is
      \<open>http.NewRequest("GET", location, nil)\<close> and \<open>Open\<close> is os.Open, with \<open>Inl\<close> for
      their errors. The flag of the result is set when main returns from inside the loop
      (line 110).\<close>
  "scanLoop NewRequest HeaderSet Open headers [] effs = (effs, False)"
| "scanLoop NewRequest HeaderSet Open headers (line # lines) effs =
     (let loc = TrimSpace line;
          nl = ToLower loc
      in if HasPrefix nl ''http:'' \<or> HasPrefix nl ''https:'' then
           (case NewRequest loc of
              Inl err \<Rightarrow>
                (effs @ [Stderr (''failed to create request for: '' @ loc @ ''. Error: '' @ err
                                  @ ''\<newline>'')], True)
            | Inr req \<Rightarrow>
                scanLoop NewRequest HeaderSet Open headers lines
                  (effs @ [Do (headersRange HeaderSet headers req)]))
         else
           (case Open loc of
              Inl err \<Rightarrow>
                scanLoop NewRequest HeaderSet Open headers lines
                  (effs @ [Stderr (''failed to open file: '' @ err @ ''\<newline>'')])
            | Inr f \<Rightarrow>
                scanLoop NewRequest HeaderSet Open headers lines
                  (effs @ [Send \<lparr>location = loc, r = f\<rparr>])))"

definition fetched :: "Request \<Rightarrow> Response option \<Rightarrow> string option \<Rightarrow> Effect list" where
  \<comment> \<open>the function passed to \<open>p.Do\<close> (lines 123 to 130); \<open>None\<close> is a nil response and
      a nil error\<close>
  "fetched req resp err =
     (case err of
        Some e \<Rightarrow> [Stderr (''failed to fetch URL: '' @ e @ ''\<newline>'')]
      | None \<Rightarrow> [])
     @ (case resp of
          None \<Rightarrow> []
        | Some rsp \<Rightarrow>
            (case Body rsp of
               None \<Rightarrow> []
             | Some b \<Rightarrow> [Send \<lparr>location = reqURL req, r = b\<rparr>]))"

subsection \<open>Instances of the library parameters, for the examples\<close>

definition letters :: string where
  "letters = ''abcdefghijklmnopqrstuvwxyzABCDEFGHIJKLMNOPQRSTUVWXYZ''"

definition digits :: string where
  "digits = ''0123456789''"

definition plainRequestURI :: "string \<Rightarrow> string + URL" where
  \<comment> \<open>url.ParseRequestURI on plain inputs. It agrees with the library on a scheme of
      letters followed by \<open>://\<close>, a host of letters, digits, dots and hyphens and a path of
      letters, digits and \<open>/ . - _\<close>; on such a path alone when it starts with a slash;
      and on such a string with neither scheme nor leading slash, which the library
      refuses. Every other input is refused here, though the library accepts some.\<close>
  "plainRequestURI s =
     (let scheme = takeWhile (\<lambda>c. c \<in> set letters) s;
          rest = dropWhile (\<lambda>c. c \<in> set letters) s;
          host = takeWhile (\<lambda>c. c \<noteq> CHR ''/'') (drop 3 rest);
          path = dropWhile (\<lambda>c. c \<noteq> CHR ''/'') (drop 3 rest)
      in if scheme \<noteq> [] \<and> take 3 rest = ''://''
            \<and> list_all (\<lambda>c. c \<in> set (letters @ digits @ ''.-'')) host
            \<and> list_all (\<lambda>c. c \<in> set (letters @ digits @ ''/.-_'')) path
         then Inr \<lparr>Scheme = ToLower scheme, Host = host, Path = path\<rparr>
         else if take 1 s = ''/'' \<and> list_all (\<lambda>c. c \<in> set (letters @ digits @ ''/.-_'')) s
         then Inr \<lparr>Scheme = [], Host = [], Path = s\<rparr>
         else Inl ''invalid URI for request'')"

definition typeSelector :: "string \<Rightarrow> string + string" where
  \<comment> \<open>css.Parse on type selectors: an element name of letters is its own selector\<close>
  "typeSelector s =
     (if s \<noteq> [] \<and> list_all (\<lambda>c. c \<in> set letters) s then Inr s else Inl ''invalid selector'')"

fun subtree :: "Node \<Rightarrow> Node list" where
  "subtree (Node d cs) = Node d cs # concat (map subtree cs)"

definition selectType :: "string \<Rightarrow> Node \<Rightarrow> Node list" where
  \<comment> \<open>Select of a type selector: the nodes of that name, in document order\<close>
  "selectType name node = filter (\<lambda>n. NodeData n = name) (subtree node)"

text \<open>
  Two documents: \<open><a href="/x">link</a>\<close> and
  \<open><title>Hi</title><!-- note --><img src="a.png" alt="//pic">\<close>, with the tokens and the
  trees the library makes of them.
\<close>

definition pageA :: Reader where
  "pageA =
     \<lparr>tokens = [\<lparr>Type = StartTagToken, Data = ''a'', Attr = [\<lparr>Key = ''href'', Val = ''/x''\<rparr>]\<rparr>,
                \<lparr>Type = TextToken, Data = ''link'', Attr = []\<rparr>,
                \<lparr>Type = EndTagToken, Data = ''a'', Attr = []\<rparr>],
      parsed = Inr (Node [] [Node ''html'' [Node ''head'' [],
                                            Node ''body'' [Node ''a'' [Node ''link'' []]]]])\<rparr>"

definition pageB :: Reader where
  "pageB =
     \<lparr>tokens = [\<lparr>Type = StartTagToken, Data = ''title'', Attr = []\<rparr>,
                \<lparr>Type = TextToken, Data = ''Hi'', Attr = []\<rparr>,
                \<lparr>Type = EndTagToken, Data = ''title'', Attr = []\<rparr>,
                \<lparr>Type = CommentToken, Data = '' note '', Attr = []\<rparr>,
                \<lparr>Type = StartTagToken, Data = ''img'',
                 Attr = [\<lparr>Key = ''src'', Val = ''a.png''\<rparr>, \<lparr>Key = ''alt'', Val = ''//pic''\<rparr>]\<rparr>],
      parsed = Inr (Node [] [Node ''html'' [Node ''head'' [Node ''title'' [Node ''Hi'' []]],
                                            Node ''body'' [Node '' note '' [], Node ''img'' []]]])\<rparr>"

text \<open>
  A file system with the one file \<open>a.html\<close>, a request constructor that refuses a
  location with a space in it (as the library does for a space in the host name), and a
  header store that replaces the value of a key.
\<close>

definition oneFile :: "string \<Rightarrow> string + Reader" where
  "oneFile path =
     (if path = ''a.html'' then Inr pageA
      else Inl (''open '' @ path @ '': no such file or directory''))"

definition spaceless :: "string \<Rightarrow> string + Request" where
  "spaceless url =
     (if CHR '' '' \<in> set url then Inl ''invalid character in host name''
      else Inr \<lparr>reqURL = url, Header = []\<rparr>)"

definition replaceKey ::
  "(string \<times> string) list \<Rightarrow> string \<Rightarrow> string \<Rightarrow> (string \<times> string) list" where
  "replaceKey h k v = (k, v) # filter (\<lambda>kv. fst kv \<noteq> k) h"

section \<open>Properties\<close>

subsection \<open>Comments mode\<close>

lemma commentsLoop_eq:
  "commentsLoop z out =
     out @ filter (\<lambda>d. d \<noteq> [])
             (map (\<lambda>t. TrimSpace (ReplaceByte (Data t) (CHR 0x0A) (CHR 0x20)))
                (filter (\<lambda>t. Type t = CommentToken) z))"
  by (induction z arbitrary: out) (simp_all add: Let_def)

text \<open>
  C6. extractComments returns, for the comment tokens of the document in their order, the
  data of the token with every newline byte replaced by one space and the white space
  around it trimmed, leaving out the comments that are empty after that; the tokens of
  every other type give nothing. The comment token of \<open><!-- line1\nline2 -->\<close>, whose
  data is the text between the delimiters, gives the one line \<open>line1 line2\<close>.
\<close>

theorem comments_newlines_to_spaces_trimmed_nonempty:
  "extractComments rd =
     filter (\<lambda>d. d \<noteq> [])
       (map (\<lambda>t. TrimSpace (map (\<lambda>c. if c = CHR 0x0A then CHR 0x20 else c) (Data t)))
          (filter (\<lambda>t. Type t = CommentToken) (tokens rd)))
   \<and> extractComments
        \<lparr>tokens = [\<lparr>Type = CommentToken, Data = '' line1\<newline>line2 '', Attr = []\<rparr>], parsed = p\<rparr>
       = [''line1 line2'']"
proof
  show "extractComments rd =
     filter (\<lambda>d. d \<noteq> [])
       (map (\<lambda>t. TrimSpace (map (\<lambda>c. if c = CHR 0x0A then CHR 0x20 else c) (Data t)))
          (filter (\<lambda>t. Type t = CommentToken) (tokens rd)))"
    by (simp add: extractComments_def commentsLoop_eq ReplaceByte_def)
next
  have "TrimSpace '' line1 line2 '' = ''line1 line2''"
    by code_simp
  then show "extractComments
        \<lparr>tokens = [\<lparr>Type = CommentToken, Data = '' line1\<newline>line2 '', Attr = []\<rparr>], parsed = p\<rparr>
       = [''line1 line2'']"
    by (simp add: extractComments_def ReplaceByte_def)
qed

theorem comments_newlines_to_spaces_trimmed_nonempty_witness:
  "extractComments
     \<lparr>tokens = [\<lparr>Type = CommentToken, Data = ''a\<newline>\<newline>b  '', Attr = []\<rparr>,
                \<lparr>Type = TextToken, Data = ''text'', Attr = []\<rparr>,
                \<lparr>Type = CommentToken, Data = '' \<newline> '', Attr = []\<rparr>,
                \<lparr>Type = CommentToken, Data = ''c'', Attr = []\<rparr>],
      parsed = Inl ''''\<rparr>
   = [''a  b'', ''c'']"
proof -
  have t1: "TrimSpace ''a  b  '' = ''a  b''" and t2: "TrimSpace ''   '' = []"
    and t3: "TrimSpace ''c'' = ''c''"
    by code_simp+
  from comments_newlines_to_spaces_trimmed_nonempty
         [of "\<lparr>tokens = [\<lparr>Type = CommentToken, Data = ''a\<newline>\<newline>b  '', Attr = []\<rparr>,
                \<lparr>Type = TextToken, Data = ''text'', Attr = []\<rparr>,
                \<lparr>Type = CommentToken, Data = '' \<newline> '', Attr = []\<rparr>,
                \<lparr>Type = CommentToken, Data = ''c'', Attr = []\<rparr>],
      parsed = Inl ''''\<rparr>"]
  show ?thesis
    by (simp add: t1 t2 t3)
qed

subsection \<open>The consumer\<close>

lemma closes_append: "closes (xs @ ys) = closes xs @ closes ys"
  by (induction xs rule: closes.induct) simp_all

lemma stderrs_append: "stderrs (xs @ ys) = stderrs xs @ stderrs ys"
  by (induction xs rule: stderrs.induct) simp_all

lemma stdouts_append: "stdouts (xs @ ys) = stdouts xs @ stdouts ys"
  by (induction xs rule: stdouts.induct) simp_all

lemma closes_Stdout: "closes (map Stdout vs) = []"
  by (induction vs) simp_all

lemma stderrs_Stdout: "stderrs (map Stdout vs) = []"
  by (induction vs) simp_all

lemma stdouts_Stdout: "stdouts (map Stdout vs) = vs"
  by (induction vs) simp_all

lemma consumer_returns:
  "\<forall>t\<in>set ts. \<exists>vals diags. switchMode P cp sel mode args t = Inr (vals, diags) \<Longrightarrow>
   consumer P cp sel mode args ts effs =
     (effs @ concat (map (\<lambda>t. case switchMode P cp sel mode args t of
                                 Inr (vals, diags) \<Rightarrow> diags @ map Stdout vals @ [Close (r t)]
                               | Inl p \<Rightarrow> []) ts),
      None)"
proof (induction ts arbitrary: effs)
  case Nil
  show ?case by simp
next
  case (Cons t ts)
  from Cons.prems obtain vals diags where sw: "switchMode P cp sel mode args t = Inr (vals, diags)"
    by auto
  from Cons.prems have "\<forall>t\<in>set ts. \<exists>vals diags. switchMode P cp sel mode args t = Inr (vals, diags)"
    by simp
  from Cons.IH [OF this] sw show ?case
    by simp
qed

lemma switchMode_returns:
  "mode = ''attribs'' \<longrightarrow> extractAttribs P t args \<noteq> Inl NilPointerDereference \<Longrightarrow>
   \<exists>vals diags. switchMode P cp sel mode args t = Inr (vals, diags)"
proof (cases "mode = ''attribs''")
  case True
  assume "mode = ''attribs'' \<longrightarrow> extractAttribs P t args \<noteq> Inl NilPointerDereference"
  with True obtain vals where "extractAttribs P t args = Inr vals"
    by (cases "extractAttribs P t args") (auto intro: panic.exhaust)
  with True show ?thesis
    by (simp add: switchMode_def)
next
  case False
  then show ?thesis
    by (auto simp: switchMode_def split: prod.splits option.splits)
qed

lemma switchMode_closes:
  "switchMode P cp sel mode args t = Inr (vals, diags) \<Longrightarrow> closes diags = []"
  by (auto simp: switchMode_def split: if_splits sum.splits prod.splits option.splits)

lemma closes_steps:
  "\<forall>t\<in>set ts. \<exists>vals diags. switchMode P cp sel mode args t = Inr (vals, diags) \<Longrightarrow>
   closes (concat (map (\<lambda>t. case switchMode P cp sel mode args t of
                                 Inr (vals, diags) \<Rightarrow> diags @ map Stdout vals @ [Close (r t)]
                               | Inl p \<Rightarrow> []) ts)) = map r ts"
proof (induction ts)
  case Nil
  show ?case by simp
next
  case (Cons t ts)
  from Cons.prems obtain vals diags where sw: "switchMode P cp sel mode args t = Inr (vals, diags)"
    by auto
  from Cons.prems have "\<forall>t\<in>set ts. \<exists>vals diags. switchMode P cp sel mode args t = Inr (vals, diags)"
    by simp
  from Cons.IH [OF this] sw switchMode_closes [OF sw] show ?case
    by (simp add: closes_append closes_Stdout)
qed

text \<open>
  Whatever the mode (one of the four, or an unrecognized one) and whether the strategy
  returns values or an error, the consumer runs through all the targets it receives and
  the readers it closes are, in order, exactly the readers of those targets: one Close
  for each target received. The one strategy that can end otherwise is extractAttribs, by
  the nil dereference of the unparsable origin, which ends the program; the hypothesis
  excludes that outcome. It cannot occur for an origin that ParseRequestURI accepts, nor
  for one that starts with neither \<open>http:\<close> nor \<open>https:\<close> (lemma
  \<open>extractAttribs_returns\<close>).
\<close>

lemma stream_closed_once_per_target:
  assumes "mode = ''attribs'' \<longrightarrow>
             (\<forall>t\<in>set ts. extractAttribs P t args \<noteq> Inl NilPointerDereference)"
  shows "\<exists>effs. consumer P cssParse Select mode args ts [] = (effs, None)
                \<and> closes effs = map r ts"
proof -
  from assms have ret:
    "\<forall>t\<in>set ts. \<exists>vals diags. switchMode P cssParse Select mode args t = Inr (vals, diags)"
    by (blast intro: switchMode_returns)
  from consumer_returns [OF ret, of "[]"] closes_steps [OF ret] show ?thesis
    by simp
qed

lemma stream_closed_once_per_target_example:
  "snd (consumer plainRequestURI typeSelector selectType ''attribs'' [''href'']
          [\<lparr>location = ''index.html'', r = pageA\<rparr>,
           \<lparr>location = ''https://example.com/dir/page.html'', r = pageB\<rparr>] []) = None
   \<and> closes (fst (consumer plainRequestURI typeSelector selectType ''attribs'' [''href'']
          [\<lparr>location = ''index.html'', r = pageA\<rparr>,
           \<lparr>location = ''https://example.com/dir/page.html'', r = pageB\<rparr>] []))
       = [pageA, pageB]"
proof -
  have a: "extractAttribs plainRequestURI \<lparr>location = ''index.html'', r = pageA\<rparr> [''href'']
             \<noteq> Inl NilPointerDereference"
    by code_simp
  have b: "extractAttribs plainRequestURI
             \<lparr>location = ''https://example.com/dir/page.html'', r = pageB\<rparr> [''href'']
             \<noteq> Inl NilPointerDereference"
    by code_simp
  from a b have "''attribs'' = ''attribs'' \<longrightarrow>
     (\<forall>t\<in>set [\<lparr>location = ''index.html'', r = pageA\<rparr>,
                \<lparr>location = ''https://example.com/dir/page.html'', r = pageB\<rparr>].
        extractAttribs plainRequestURI t [''href''] \<noteq> Inl NilPointerDereference)"
    by simp
  from stream_closed_once_per_target [OF this, of typeSelector selectType] show ?thesis
    by auto
qed

text \<open>
  C3 fails on the code. The comment of line 88 asks for the reader to be closed when the
  consumer is done with it, and every path through the switch reaches the Close of line
  89 but one: in Attribs mode, a target whose origin starts with \<open>http:\<close> and is
  refused by ParseRequestURI (the library refuses \<open>http://example.com#top\<close>, the
  fragment standing where the host ends) and whose document has \<open>href="/x"\<close> makes
  extractAttribs read the scheme through the nil URL. The panic ends the program: the
  reader of that target is never closed, nor is the reader of any target behind it.
\<close>

theorem panic_leaves_targets_unclosed:
  "P ''http://example.com#top'' = Inl err \<longrightarrow>
   consumer P cssParse Select ''attribs'' [''href'']
     [\<lparr>location = ''b.html'', r = pageB\<rparr>,
      \<lparr>location = ''http://example.com#top'', r = pageA\<rparr>,
      \<lparr>location = ''c.html'', r = pageB\<rparr>] []
   = ([Close pageB], Some NilPointerDereference)"
proof
  assume bad: "P ''http://example.com#top'' = Inl err"
  have url: "HasPrefix (ToLower ''http://example.com#top'') ''http:''"
    by (simp add: HasPrefix_def ToLower_def lowerByte_def)
  have nourl: "\<not> HasPrefix (ToLower ''b.html'') ''http:''" "\<not> HasPrefix (ToLower ''b.html'') ''https:''"
    by (simp_all add: HasPrefix_def ToLower_def lowerByte_def)
  have first: "extractAttribs P \<lparr>location = ''b.html'', r = pageB\<rparr> [''href''] = Inr []"
    by (simp add: extractAttribs_def pageB_def)
  have second: "extractAttribs P \<lparr>location = ''http://example.com#top'', r = pageA\<rparr> [''href'']
                  = Inl NilPointerDereference"
    by (simp add: extractAttribs_def pageA_def matchedAttrib_def url bad
          HasPrefix_def [of "''/x''"])
  show "consumer P cssParse Select ''attribs'' [''href'']
     [\<lparr>location = ''b.html'', r = pageB\<rparr>,
      \<lparr>location = ''http://example.com#top'', r = pageA\<rparr>,
      \<lparr>location = ''c.html'', r = pageB\<rparr>] []
   = ([Close pageB], Some NilPointerDereference)"
    by (simp add: switchMode_def first second)
qed

theorem panic_leaves_targets_unclosed_witness:
  "closes (fst (consumer plainRequestURI typeSelector selectType ''attribs'' [''href'']
     [\<lparr>location = ''b.html'', r = pageB\<rparr>,
      \<lparr>location = ''http://example.com#top'', r = pageA\<rparr>,
      \<lparr>location = ''c.html'', r = pageB\<rparr>] [])) = [pageB]
   \<and> snd (consumer plainRequestURI typeSelector selectType ''attribs'' [''href'']
     [\<lparr>location = ''b.html'', r = pageB\<rparr>,
      \<lparr>location = ''http://example.com#top'', r = pageA\<rparr>,
      \<lparr>location = ''c.html'', r = pageB\<rparr>] []) = Some NilPointerDereference"
proof -
  have bad: "plainRequestURI ''http://example.com#top'' = Inl ''invalid URI for request''"
    by code_simp
  note run = panic_leaves_targets_unclosed
      [where P = plainRequestURI and err = "''invalid URI for request''"
         and cssParse = typeSelector and Select = selectType, rule_format, OF bad]
  show ?thesis
    unfolding run by simp
qed

lemma switchMode_unsupported:
  "mode \<notin> {''tags'', ''attribs'', ''comments'', ''query''} \<Longrightarrow>
   switchMode P cp sel mode args t =
     Inr ([], [Stderr (''unsupported mode '' @ [CHR 0x27] @ mode @ [CHR 0x27] @ ''\<newline>'')])"
  by (simp add: switchMode_def)

lemma switchMode_bad_selector:
  "cp (Arg1 args) = Inl err \<Longrightarrow>
   switchMode P cp sel ''query'' args t =
     Inr ([], [Stderr (''failed to parse CSS selector: '' @ err @ ''\<newline>'')])"
  by (simp add: switchMode_def extractSelector_def)

text \<open>
  C4 as stated fails: the diagnostic of a configuration error is written inside the loop
  over the targets, so a run that receives two targets reports an unrecognized mode twice,
  and an invalid selector twice, not once.
\<close>

theorem config_error_reported_twice_for_two_targets:
  "stderrs (fst (consumer plainRequestURI typeSelector selectType ''bogus'' []
                   [\<lparr>location = ''a.html'', r = pageA\<rparr>, \<lparr>location = ''b.html'', r = pageB\<rparr>] []))
     = [''unsupported mode '' @ [CHR 0x27] @ ''bogus'' @ [CHR 0x27] @ ''\<newline>'',
        ''unsupported mode '' @ [CHR 0x27] @ ''bogus'' @ [CHR 0x27] @ ''\<newline>'']
   \<and> stderrs (fst (consumer plainRequestURI typeSelector selectType ''query'' ['':::bad'']
                   [\<lparr>location = ''a.html'', r = pageA\<rparr>, \<lparr>location = ''b.html'', r = pageB\<rparr>] []))
     = [''failed to parse CSS selector: invalid selector\<newline>'',
        ''failed to parse CSS selector: invalid selector\<newline>'']"
  by (simp add: switchMode_def extractSelector_def Arg1_def typeSelector_def letters_def)

text \<open>
  C4, amended. When the mode is none of \<open>tags\<close>, \<open>attribs\<close>, \<open>comments\<close> and
  \<open>query\<close>, or the mode is \<open>query\<close> and the selector does not parse, the consumer
  writes the diagnostic once for every target it receives (so never when it receives
  none), writes nothing to stdout, closes the reader of every target and runs to the end
  of the targets: no target is skipped and the run is not aborted.
\<close>

theorem config_error_reported_per_target:
  assumes "mode \<notin> {''tags'', ''attribs'', ''comments'', ''query''}
           \<or> mode = ''query'' \<and> cssParse (Arg1 args) = Inl err"
  shows "consumer P cssParse Select mode args ts [] =
           (concat (map (\<lambda>t. [Stderr (if mode = ''query''
                                       then ''failed to parse CSS selector: '' @ err @ ''\<newline>''
                                       else ''unsupported mode '' @ [CHR 0x27] @ mode @ [CHR 0x27]
                                            @ ''\<newline>''),
                               Close (r t)]) ts),
            None)"
proof -
  have sw: "switchMode P cssParse Select mode args t =
     Inr ([], [Stderr (if mode = ''query''
                       then ''failed to parse CSS selector: '' @ err @ ''\<newline>''
                       else ''unsupported mode '' @ [CHR 0x27] @ mode @ [CHR 0x27]
                            @ ''\<newline>'')])" for t
    using assms switchMode_unsupported [of mode P cssParse Select args t]
      switchMode_bad_selector [of cssParse args err P Select t]
    by auto
  then have "\<forall>t\<in>set ts. \<exists>vals diags. switchMode P cssParse Select mode args t = Inr (vals, diags)"
    by blast
  from consumer_returns [OF this, of "[]"] show ?thesis
    by (simp add: sw)
qed

theorem config_error_reported_per_target_witness:
  "consumer plainRequestURI typeSelector selectType ''query'' ['':::bad'']
     [\<lparr>location = ''a.html'', r = pageA\<rparr>, \<lparr>location = ''b.html'', r = pageB\<rparr>,
      \<lparr>location = ''c.html'', r = pageA\<rparr>] [] =
     ([Stderr ''failed to parse CSS selector: invalid selector\<newline>'', Close pageA,
       Stderr ''failed to parse CSS selector: invalid selector\<newline>'', Close pageB,
       Stderr ''failed to parse CSS selector: invalid selector\<newline>'', Close pageA], None)"
proof -
  have sel: "typeSelector (Arg1 ['':::bad'']) = Inl ''invalid selector''"
    by (simp add: typeSelector_def Arg1_def letters_def)
  then have "''query'' \<notin> {''tags'', ''attribs'', ''comments'', ''query''}
           \<or> ''query'' = ''query'' \<and> typeSelector (Arg1 ['':::bad'']) = Inl ''invalid selector''"
    by simp
  from config_error_reported_per_target
         [where mode = "''query''" and cssParse = typeSelector and P = plainRequestURI
            and Select = selectType
            and ts = "[\<lparr>location = ''a.html'', r = pageA\<rparr>, \<lparr>location = ''b.html'', r = pageB\<rparr>,
                       \<lparr>location = ''c.html'', r = pageA\<rparr>]", OF this]
  have run: "consumer plainRequestURI typeSelector selectType ''query'' ['':::bad'']
     [\<lparr>location = ''a.html'', r = pageA\<rparr>, \<lparr>location = ''b.html'', r = pageB\<rparr>,
      \<lparr>location = ''c.html'', r = pageA\<rparr>] [] =
     (concat (map (\<lambda>t. [Stderr ''failed to parse CSS selector: invalid selector\<newline>'',
                          Close (r t)])
        [\<lparr>location = ''a.html'', r = pageA\<rparr>, \<lparr>location = ''b.html'', r = pageB\<rparr>,
         \<lparr>location = ''c.html'', r = pageA\<rparr>]), None)"
    by simp
  show ?thesis
    unfolding run by simp
qed

subsection \<open>Query mode\<close>

lemma selectRange_eq:
  "selectRange eles out =
     out @ map (\<lambda>e. NodeData (hd (Children e))) (filter (\<lambda>e. Children e \<noteq> []) eles)"
  by (induction eles arbitrary: out) (auto simp: FirstChild_def split: list.splits)

text \<open>
  C7. When the selector parses, extractSelector returns, for the elements the selector
  matches in the parsed document, taken in the order Select yields them and leaving out
  those without a child, the data of the first child of each: one string for each such
  element and nothing else, with no error. (A document that html.Parse refuses has no
  matched element: the result is empty, with the error.) In Query mode the consumer
  writes exactly these strings, one line each, before it closes the reader.
\<close>

theorem query_emits_first_child_data:
  assumes "cssParse selector = Inr sel"
  shows "extractSelector cssParse Select rd selector =
           (case parsed rd of
              Inl err \<Rightarrow> ([], Some err)
            | Inr node \<Rightarrow>
                (map (\<lambda>e. NodeData (hd (Children e)))
                   (filter (\<lambda>e. Children e \<noteq> []) (Select sel node)), None))
         \<and> (parsed (r t) = Inr root \<longrightarrow> Arg1 args = selector \<longrightarrow>
              consumer P cssParse Select ''query'' args [t] [] =
                (map Stdout (map (\<lambda>e. NodeData (hd (Children e)))
                               (filter (\<lambda>e. Children e \<noteq> []) (Select sel root)))
                 @ [Close (r t)], None))"
  using assms
  by (simp add: extractSelector_def selectRange_eq switchMode_def split: sum.splits)

text \<open>
  The witness is the example of the specification: the selector \<open>title\<close> on a document
  whose tree has the text \<open>Hi\<close> as the only child of its title element, and an image
  element without children that a second selector matches.
\<close>

theorem query_emits_first_child_data_witness:
  "extractSelector typeSelector selectType pageB ''title'' = ([''Hi''], None)
   \<and> consumer plainRequestURI typeSelector selectType ''query'' [''title'']
        [\<lparr>location = ''b.html'', r = pageB\<rparr>] [] = ([Stdout ''Hi'', Close pageB], None)
   \<and> extractSelector typeSelector selectType pageB ''img'' = ([], None)"
proof -
  have p: "typeSelector ''title'' = Inr ''title''" and q: "typeSelector ''img'' = Inr ''img''"
    by (simp_all add: typeSelector_def letters_def)
  have tree: "parsed pageB =
      Inr (Node [] [Node ''html'' [Node ''head'' [Node ''title'' [Node ''Hi'' []]],
                                   Node ''body'' [Node '' note '' [], Node ''img'' []]]])"
    by (simp add: pageB_def)
  from query_emits_first_child_data
         [where cssParse = typeSelector and selector = "''title''" and sel = "''title''"
            and Select = selectType and rd = pageB and P = plainRequestURI
            and t = "\<lparr>location = ''b.html'', r = pageB\<rparr>" and args = "[''title'']"
            and root = "Node [] [Node ''html'' [Node ''head'' [Node ''title'' [Node ''Hi'' []]],
                                               Node ''body'' [Node '' note '' [], Node ''img'' []]]]",
          OF p]
       query_emits_first_child_data
         [where cssParse = typeSelector and selector = "''img''" and sel = "''img''"
            and Select = selectType and rd = pageB, OF q]
  show ?thesis
    by (simp add: tree selectType_def Arg1_def)
qed

subsection \<open>The input loop and the fetch callback\<close>

text \<open>
  C8. A line whose trimmed, lower-cased text starts with \<open>http:\<close> or \<open>https:\<close> and
  for which the request cannot be constructed ends the loop: the diagnostic is the last
  effect, main returns, and the result does not depend on the lines that follow. A line
  that is not so classified and whose file cannot be opened adds its diagnostic, and the
  loop goes on with the following lines.
\<close>

theorem bad_url_aborts_bad_file_skips:
  "(HasPrefix (ToLower (TrimSpace line)) ''http:'' \<or> HasPrefix (ToLower (TrimSpace line)) ''https:''
      \<longrightarrow> NewRequest (TrimSpace line) = Inl err
      \<longrightarrow> scanLoop NewRequest HeaderSet Open headers (line # lines) effs =
            (effs @ [Stderr (''failed to create request for: '' @ TrimSpace line @ ''. Error: ''
                             @ err @ ''\<newline>'')], True))
   \<and> (\<not> (HasPrefix (ToLower (TrimSpace line)) ''http:''
           \<or> HasPrefix (ToLower (TrimSpace line)) ''https:'')
      \<longrightarrow> Open (TrimSpace line) = Inl err
      \<longrightarrow> scanLoop NewRequest HeaderSet Open headers (line # lines) effs =
            scanLoop NewRequest HeaderSet Open headers lines
              (effs @ [Stderr (''failed to open file: '' @ err @ ''\<newline>'')]))"
  by (simp add: Let_def)

theorem bad_url_aborts_bad_file_skips_witness:
  "scanLoop spaceless replaceKey oneFile [] [''missing.html'', ''  HTTP://exa mple.com/ '', ''a.html''] []
     = ([Stderr ''failed to open file: open missing.html: no such file or directory\<newline>'',
         Stderr ''failed to create request for: HTTP://exa mple.com/. Error: invalid character in host name\<newline>''],
        True)"
proof -
  have t1: "TrimSpace ''missing.html'' = ''missing.html''"
    and t2: "TrimSpace ''  HTTP://exa mple.com/ '' = ''HTTP://exa mple.com/''"
    by code_simp+
  have isfile: "\<not> (HasPrefix (ToLower (TrimSpace ''missing.html'')) ''http:''
                 \<or> HasPrefix (ToLower (TrimSpace ''missing.html'')) ''https:'')"
    by (simp add: t1 HasPrefix_def ToLower_def lowerByte_def)
  have nofile: "oneFile (TrimSpace ''missing.html'')
                  = Inl ''open missing.html: no such file or directory''"
    by (simp add: t1 oneFile_def)
  have isurl: "HasPrefix (ToLower (TrimSpace ''  HTTP://exa mple.com/ '')) ''http:''
             \<or> HasPrefix (ToLower (TrimSpace ''  HTTP://exa mple.com/ '')) ''https:''"
    by (simp add: t2 HasPrefix_def ToLower_def lowerByte_def)
  have noreq: "spaceless (TrimSpace ''  HTTP://exa mple.com/ '')
                 = Inl ''invalid character in host name''"
    by (simp add: t2 spaceless_def)
  from bad_url_aborts_bad_file_skips
         [where line = "''missing.html''" and Open = oneFile and NewRequest = spaceless
            and err = "''open missing.html: no such file or directory''"
            and HeaderSet = replaceKey and headers = "[]"
            and lines = "[''  HTTP://exa mple.com/ '', ''a.html'']" and effs = "[]"]
       isfile nofile
  have first: "scanLoop spaceless replaceKey oneFile []
                 [''missing.html'', ''  HTTP://exa mple.com/ '', ''a.html''] []
     = scanLoop spaceless replaceKey oneFile [] [''  HTTP://exa mple.com/ '', ''a.html'']
         [Stderr ''failed to open file: open missing.html: no such file or directory\<newline>'']"
    by simp
  from bad_url_aborts_bad_file_skips
         [where line = "''  HTTP://exa mple.com/ ''" and Open = oneFile and NewRequest = spaceless
            and err = "''invalid character in host name''"
            and HeaderSet = replaceKey and headers = "[]"
            and lines = "[''a.html'']"
            and effs = "[Stderr ''failed to open file: open missing.html: no such file or directory\<newline>'']"]
       isurl noreq
  have second: "scanLoop spaceless replaceKey oneFile [] [''  HTTP://exa mple.com/ '', ''a.html'']
         [Stderr ''failed to open file: open missing.html: no such file or directory\<newline>'']
     = ([Stderr ''failed to open file: open missing.html: no such file or directory\<newline>'',
         Stderr (''failed to create request for: '' @ TrimSpace ''  HTTP://exa mple.com/ ''
                 @ ''. Error: '' @ ''invalid character in host name'' @ ''\<newline>'')], True)"
    by simp
  show ?thesis
    unfolding first second by (simp add: t2)
qed

text \<open>
  C9 as stated fails: the callback tests the response whether or not an error came with
  it, so an error that comes beside a response with a body (the client's answer to a
  refused redirect) gives the diagnostic and a Target as well.
\<close>

theorem error_with_response_still_sends:
  "fetched \<lparr>reqURL = ''http://example.com/loop'', Header = []\<rparr>
     (Some \<lparr>Body = Some pageA\<rparr>) (Some ''stopped after 10 redirects'')
   = [Stderr ''failed to fetch URL: stopped after 10 redirects\<newline>'',
      Send \<lparr>location = ''http://example.com/loop'', r = pageA\<rparr>]"
  by (simp add: fetched_def)

text \<open>
  C9, amended. The callback writes the diagnostic exactly when it is given an error. It
  hands off a Target exactly when the response is present and its body is not nil,
  whether or not an error was given too; the origin of the Target is the URL of the
  request and its stream is the body of the response. An error that comes without a
  response therefore produces no Target.
\<close>

theorem fetch_callback_diagnostic_and_handoff:
  "stderrs (fetched req resp err) =
     (case err of Some e \<Rightarrow> [''failed to fetch URL: '' @ e @ ''\<newline>''] | None \<Rightarrow> [])
   \<and> sends (fetched req resp err) =
     (case resp of
        None \<Rightarrow> []
      | Some rsp \<Rightarrow>
          (case Body rsp of None \<Rightarrow> [] | Some b \<Rightarrow> [\<lparr>location = reqURL req, r = b\<rparr>]))
   \<and> stdouts (fetched req resp err) = [] \<and> closes (fetched req resp err) = []
   \<and> (err \<noteq> None \<longrightarrow> resp = None \<longrightarrow> sends (fetched req resp err) = [])"
  by (simp add: fetched_def split: option.splits)

theorem fetch_callback_diagnostic_and_handoff_witness:
  "sends (fetched \<lparr>reqURL = ''http://example.com/'', Header = []\<rparr> None (Some ''timeout'')) = []
   \<and> stderrs (fetched \<lparr>reqURL = ''http://example.com/'', Header = []\<rparr> None (Some ''timeout''))
       = [''failed to fetch URL: timeout\<newline>'']
   \<and> sends (fetched \<lparr>reqURL = ''http://example.com/'', Header = []\<rparr> (Some \<lparr>Body = Some pageB\<rparr>) None)
       = [\<lparr>location = ''http://example.com/'', r = pageB\<rparr>]
   \<and> stderrs (fetched \<lparr>reqURL = ''http://example.com/'', Header = []\<rparr> (Some \<lparr>Body = Some pageB\<rparr>) None)
       = []"
  using fetch_callback_diagnostic_and_handoff
          [of "\<lparr>reqURL = ''http://example.com/'', Header = []\<rparr>" None "Some ''timeout''"]
        fetch_callback_diagnostic_and_handoff
          [of "\<lparr>reqURL = ''http://example.com/'', Header = []\<rparr>" "Some \<lparr>Body = Some pageB\<rparr>" None]
  by simp

subsection \<open>Attribs mode\<close>

lemma matchedAttrib_origin_parsed:
  assumes "P loc = Inr u"
  shows "matchedAttrib P loc a attrib out =
           Inr (out @
             [if HasPrefix (ToLower loc) ''http:''
                 \<or> HasPrefix (ToLower loc) ''https:'' \<and> (attrib = ''src'' \<or> attrib = ''href'')
              then
                (if HasPrefix (Val a) ''//'' then ''https:'' @ Val a
                 else if HasPrefix (Val a) ''/'' then Scheme u @ ''://'' @ Host u @ Val a
                 else if \<exists>w. P (Val a) = Inr w then Val a
                 else Scheme u @ ''://'' @ Host u @ Path u @ Val a)
              else Val a])"
  using assms by (auto simp: matchedAttrib_def Let_def split: sum.splits)

lemma matchedAttrib_raw:
  assumes "\<not> (HasPrefix (ToLower loc) ''http:''
              \<or> HasPrefix (ToLower loc) ''https:'' \<and> (attrib = ''src'' \<or> attrib = ''href''))"
  shows "matchedAttrib P loc a attrib out = Inr (out @ [Val a])"
  using assms by (auto simp: matchedAttrib_def Let_def)

text \<open>
  The whole function, when every matched attribute appends one string: the output lists
  these strings token by token, attribute by attribute (those with an empty value left
  out) and, for each attribute, once for every requested name equal to its key.
\<close>

lemma attribsLoop_map:
  assumes "\<And>attrib acc. matchedAttrib P loc a attrib acc = Inr (acc @ [f a attrib])"
  shows "attribsLoop P loc a attribs out =
           Inr (out @ map (f a) (filter (\<lambda>attrib. attrib = Key a) attribs))"
  by (induction attribs arbitrary: out) (simp_all add: assms)

lemma attrLoop_map:
  assumes "\<And>a attrib acc. matchedAttrib P loc a attrib acc = Inr (acc @ [f a attrib])"
  shows "attrLoop P loc as attribs out =
           Inr (out @ concat (map (\<lambda>a. map (f a) (filter (\<lambda>attrib. attrib = Key a) attribs))
                                (filter (\<lambda>a. Val a \<noteq> []) as)))"
  by (induction as arbitrary: out) (simp_all add: attribsLoop_map [where f = f, OF assms])

lemma attribTokens_map:
  assumes "\<And>a attrib acc. matchedAttrib P loc a attrib acc = Inr (acc @ [f a attrib])"
  shows "attribTokens P loc z attribs out =
           Inr (out @ concat (map (\<lambda>t. concat (map (\<lambda>a. map (f a)
                                                          (filter (\<lambda>attrib. attrib = Key a) attribs))
                                                   (filter (\<lambda>a. Val a \<noteq> []) (Attr t)))) z))"
  by (induction z arbitrary: out) (simp_all add: attrLoop_map [where f = f, OF assms])

lemma extractAttribs_origin_parsed:
  assumes "P (location tar) = Inr u"
  shows "extractAttribs P tar attribs =
           Inr (concat (map (\<lambda>t. concat (map (\<lambda>a. map (\<lambda>attrib.
                  if HasPrefix (ToLower (location tar)) ''http:''
                     \<or> HasPrefix (ToLower (location tar)) ''https:''
                       \<and> (attrib = ''src'' \<or> attrib = ''href'')
                  then
                    (if HasPrefix (Val a) ''//'' then ''https:'' @ Val a
                     else if HasPrefix (Val a) ''/'' then Scheme u @ ''://'' @ Host u @ Val a
                     else if \<exists>w. P (Val a) = Inr w then Val a
                     else Scheme u @ ''://'' @ Host u @ Path u @ Val a)
                  else Val a)
                (filter (\<lambda>attrib. attrib = Key a) attribs))
              (filter (\<lambda>a. Val a \<noteq> []) (Attr t)))) (tokens (r tar))))"
  unfolding extractAttribs_def
  by (subst attribTokens_map [where f = "\<lambda>a attrib.
                  if HasPrefix (ToLower (location tar)) ''http:''
                     \<or> HasPrefix (ToLower (location tar)) ''https:''
                       \<and> (attrib = ''src'' \<or> attrib = ''href'')
                  then
                    (if HasPrefix (Val a) ''//'' then ''https:'' @ Val a
                     else if HasPrefix (Val a) ''/'' then Scheme u @ ''://'' @ Host u @ Val a
                     else if \<exists>w. P (Val a) = Inr w then Val a
                     else Scheme u @ ''://'' @ Host u @ Path u @ Val a)
                  else Val a"])
     (simp_all add: matchedAttrib_origin_parsed [where P = P, OF assms])

lemma extractAttribs_other_origin:
  assumes "\<not> HasPrefix (ToLower (location tar)) ''http:''"
    and "\<not> HasPrefix (ToLower (location tar)) ''https:''"
  shows "extractAttribs P tar attribs =
           Inr (concat (map (\<lambda>t. concat (map (\<lambda>a. map (\<lambda>attrib. Val a)
                                                     (filter (\<lambda>attrib. attrib = Key a) attribs))
                                           (filter (\<lambda>a. Val a \<noteq> []) (Attr t)))) (tokens (r tar))))"
  unfolding extractAttribs_def
  by (subst attribTokens_map [where f = "\<lambda>a attrib. Val a"])
     (simp_all add: matchedAttrib_raw assms)

lemma extractAttribs_returns:
  assumes "(\<exists>u. P (location tar) = Inr u)
           \<or> \<not> HasPrefix (ToLower (location tar)) ''http:''
             \<and> \<not> HasPrefix (ToLower (location tar)) ''https:''"
  shows "extractAttribs P tar attribs \<noteq> Inl NilPointerDereference"
  using assms extractAttribs_origin_parsed [of P tar _ attribs]
    extractAttribs_other_origin [of tar P attribs]
  by auto

text \<open>
  The normalization rule, for an origin that parses. Where the normalization branch is
  entered (the origin starts with \<open>http:\<close>, or with \<open>https:\<close> and the name is
  \<open>src\<close> or \<open>href\<close>) and the origin parses, with scheme, host and path as the
  parser gives them, one string is emitted for the matched attribute: \<open>https:\<close> before
  a value that starts with \<open>//\<close>; scheme, \<open>://\<close> and host before a value that starts
  with one slash; the value itself when ParseRequestURI accepts it; otherwise scheme,
  \<open>://\<close>, host and the whole path of the origin before the value, the strings
  concatenated as they are. With the origin \<open>https://example.com/dir/page.html\<close>,
  parsed into \<open>https\<close>, \<open>example.com\<close> and \<open>/dir/page.html\<close>, the three values of
  the specification give the three strings it states, for any parser that refuses
  \<open>a.png\<close> as the library does. For a whole document read from an origin that parses,
  extractAttribs returns these strings for the attributes the branch normalizes and the
  raw values for the others, in document order.
\<close>

lemma url_normalization_rule:
  "(P loc = Inr u \<longrightarrow>
      HasPrefix (ToLower loc) ''http:''
        \<or> HasPrefix (ToLower loc) ''https:'' \<and> (k = ''src'' \<or> k = ''href'') \<longrightarrow>
      matchedAttrib P loc \<lparr>Key = k, Val = v\<rparr> k out =
        Inr (out @
          [if HasPrefix v ''//'' then ''https:'' @ v
           else if HasPrefix v ''/'' then Scheme u @ ''://'' @ Host u @ v
           else if \<exists>w. P v = Inr w then v
           else Scheme u @ ''://'' @ Host u @ Path u @ v]))
   \<and> (P ''https://example.com/dir/page.html''
         = Inr \<lparr>Scheme = ''https'', Host = ''example.com'', Path = ''/dir/page.html''\<rparr> \<longrightarrow>
       P ''a.png'' = Inl e \<longrightarrow>
       extractAttribs P
         \<lparr>location = ''https://example.com/dir/page.html'',
          r = \<lparr>tokens = [\<lparr>Type = StartTagToken, Data = ''img'',
                           Attr = [\<lparr>Key = ''src'', Val = ''/img/a.png''\<rparr>]\<rparr>,
                          \<lparr>Type = StartTagToken, Data = ''img'',
                           Attr = [\<lparr>Key = ''src'', Val = ''//cdn.com/a.png''\<rparr>]\<rparr>,
                          \<lparr>Type = SelfClosingTagToken, Data = ''img'',
                           Attr = [\<lparr>Key = ''src'', Val = ''a.png''\<rparr>]\<rparr>],
               parsed = d\<rparr>\<rparr> [''src'']
         = Inr [''https://example.com/img/a.png'', ''https://cdn.com/a.png'',
                ''https://example.com/dir/page.htmla.png''])
   \<and> (P (location tar) = Inr u \<longrightarrow>
       extractAttribs P tar attribs =
         Inr (concat (map (\<lambda>t. concat (map (\<lambda>a. map (\<lambda>attrib.
                if HasPrefix (ToLower (location tar)) ''http:''
                   \<or> HasPrefix (ToLower (location tar)) ''https:''
                     \<and> (attrib = ''src'' \<or> attrib = ''href'')
                then
                  (if HasPrefix (Val a) ''//'' then ''https:'' @ Val a
                   else if HasPrefix (Val a) ''/'' then Scheme u @ ''://'' @ Host u @ Val a
                   else if \<exists>w. P (Val a) = Inr w then Val a
                   else Scheme u @ ''://'' @ Host u @ Path u @ Val a)
                else Val a)
              (filter (\<lambda>attrib. attrib = Key a) attribs))
            (filter (\<lambda>a. Val a \<noteq> []) (Attr t)))) (tokens (r tar)))))"
proof (intro conjI impI)
  assume "P (location tar) = Inr u"
  then show "extractAttribs P tar attribs =
         Inr (concat (map (\<lambda>t. concat (map (\<lambda>a. map (\<lambda>attrib.
                if HasPrefix (ToLower (location tar)) ''http:''
                   \<or> HasPrefix (ToLower (location tar)) ''https:''
                     \<and> (attrib = ''src'' \<or> attrib = ''href'')
                then
                  (if HasPrefix (Val a) ''//'' then ''https:'' @ Val a
                   else if HasPrefix (Val a) ''/'' then Scheme u @ ''://'' @ Host u @ Val a
                   else if \<exists>w. P (Val a) = Inr w then Val a
                   else Scheme u @ ''://'' @ Host u @ Path u @ Val a)
                else Val a)
              (filter (\<lambda>attrib. attrib = Key a) attribs))
            (filter (\<lambda>a. Val a \<noteq> []) (Attr t)))) (tokens (r tar))))"
    by (rule extractAttribs_origin_parsed)
next
  assume "P loc = Inr u"
    and "HasPrefix (ToLower loc) ''http:''
        \<or> HasPrefix (ToLower loc) ''https:'' \<and> (k = ''src'' \<or> k = ''href'')"
  then show "matchedAttrib P loc \<lparr>Key = k, Val = v\<rparr> k out =
        Inr (out @
          [if HasPrefix v ''//'' then ''https:'' @ v
           else if HasPrefix v ''/'' then Scheme u @ ''://'' @ Host u @ v
           else if \<exists>w. P v = Inr w then v
           else Scheme u @ ''://'' @ Host u @ Path u @ v])"
    by (simp add: matchedAttrib_origin_parsed)
next
  assume origin: "P ''https://example.com/dir/page.html''
         = Inr \<lparr>Scheme = ''https'', Host = ''example.com'', Path = ''/dir/page.html''\<rparr>"
    and rel: "P ''a.png'' = Inl e"
  have pre: "HasPrefix (ToLower ''https://example.com/dir/page.html'') ''https:''"
    by (simp add: HasPrefix_def ToLower_def lowerByte_def)
  show "extractAttribs P
         \<lparr>location = ''https://example.com/dir/page.html'',
          r = \<lparr>tokens = [\<lparr>Type = StartTagToken, Data = ''img'',
                           Attr = [\<lparr>Key = ''src'', Val = ''/img/a.png''\<rparr>]\<rparr>,
                          \<lparr>Type = StartTagToken, Data = ''img'',
                           Attr = [\<lparr>Key = ''src'', Val = ''//cdn.com/a.png''\<rparr>]\<rparr>,
                          \<lparr>Type = SelfClosingTagToken, Data = ''img'',
                           Attr = [\<lparr>Key = ''src'', Val = ''a.png''\<rparr>]\<rparr>],
               parsed = d\<rparr>\<rparr> [''src'']
         = Inr [''https://example.com/img/a.png'', ''https://cdn.com/a.png'',
                ''https://example.com/dir/page.htmla.png'']"
    by (simp add: extractAttribs_def
          matchedAttrib_origin_parsed [where P = P, OF origin] pre rel
          HasPrefix_def [of "''/img/a.png''"] HasPrefix_def [of "''//cdn.com/a.png''"]
          HasPrefix_def [of "''a.png''"])
qed

lemma url_normalization_rule_example:
  "matchedAttrib plainRequestURI ''https://example.com/dir/page.html''
     \<lparr>Key = ''href'', Val = ''../up.html''\<rparr> ''href'' []
     = Inr [''https://example.com/dir/page.html../up.html'']
   \<and> matchedAttrib plainRequestURI ''https://example.com/dir/page.html''
     \<lparr>Key = ''href'', Val = ''ftp://files.example.org/x''\<rparr> ''href'' []
     = Inr [''ftp://files.example.org/x'']
   \<and> extractAttribs plainRequestURI
         \<lparr>location = ''https://example.com/dir/page.html'',
          r = \<lparr>tokens = [\<lparr>Type = StartTagToken, Data = ''img'',
                           Attr = [\<lparr>Key = ''src'', Val = ''/img/a.png''\<rparr>]\<rparr>,
                          \<lparr>Type = StartTagToken, Data = ''img'',
                           Attr = [\<lparr>Key = ''src'', Val = ''//cdn.com/a.png''\<rparr>]\<rparr>,
                          \<lparr>Type = SelfClosingTagToken, Data = ''img'',
                           Attr = [\<lparr>Key = ''src'', Val = ''a.png''\<rparr>]\<rparr>],
               parsed = Inl []\<rparr>\<rparr> [''src'']
         = Inr [''https://example.com/img/a.png'', ''https://cdn.com/a.png'',
                ''https://example.com/dir/page.htmla.png'']"
proof -
  have origin: "plainRequestURI ''https://example.com/dir/page.html''
         = Inr \<lparr>Scheme = ''https'', Host = ''example.com'', Path = ''/dir/page.html''\<rparr>"
    by code_simp
  have rel: "plainRequestURI ''a.png'' = Inl ''invalid URI for request''"
    by code_simp
  have up: "plainRequestURI ''../up.html'' = Inl ''invalid URI for request''"
    by code_simp
  have ftp: "plainRequestURI ''ftp://files.example.org/x''
         = Inr \<lparr>Scheme = ''ftp'', Host = ''files.example.org'', Path = ''/x''\<rparr>"
    by code_simp
  have pre: "HasPrefix (ToLower ''https://example.com/dir/page.html'') ''http:''
             \<or> HasPrefix (ToLower ''https://example.com/dir/page.html'') ''https:''
               \<and> (''href'' = ''src'' \<or> ''href'' = ''href'')"
    by (simp add: HasPrefix_def ToLower_def lowerByte_def)
  note rule = url_normalization_rule
         [where P = plainRequestURI and loc = "''https://example.com/dir/page.html''"
            and u = "\<lparr>Scheme = ''https'', Host = ''example.com'', Path = ''/dir/page.html''\<rparr>"
            and k = "''href''" and out = "[]" and e = "''invalid URI for request''"
            and d = "Inl []"]
  from rule [where v = "''../up.html''", THEN conjunct1, rule_format, OF origin pre]
  have one: "matchedAttrib plainRequestURI ''https://example.com/dir/page.html''
     \<lparr>Key = ''href'', Val = ''../up.html''\<rparr> ''href'' []
     = Inr [''https://example.com/dir/page.html../up.html'']"
    by (simp add: up HasPrefix_def [of "''../up.html''"])
  from rule [where v = "''ftp://files.example.org/x''", THEN conjunct1, rule_format, OF origin pre]
  have two: "matchedAttrib plainRequestURI ''https://example.com/dir/page.html''
     \<lparr>Key = ''href'', Val = ''ftp://files.example.org/x''\<rparr> ''href'' []
     = Inr [''ftp://files.example.org/x'']"
    by (simp add: ftp HasPrefix_def [of "''ftp://files.example.org/x''"])
  note three = rule [where v = "[]", THEN conjunct2, THEN conjunct1, rule_format, OF origin rel]
  from one two three show ?thesis
    by simp
qed

text \<open>
  C2 fails on the code where the origin does not parse. Line 229 appends the raw value
  and nothing leaves the iteration there, so the rule then runs with a nil URL. On the
  origin \<open>http://example.com#top\<close>, which the library refuses, a value that starts
  with \<open>//\<close> is emitted raw and then once more behind \<open>https:\<close>, where the rule
  gives the second string alone; a value that ParseRequestURI accepts is emitted twice,
  where the rule gives it once; and a value that starts with one slash, or a relative
  one, reads the scheme through the nil pointer and panics, where the rule gives scheme,
  \<open>://\<close>, host (and path) before the value.
\<close>

theorem unparsable_origin_breaks_normalization_rule:
  "P ''http://example.com#top'' = Inl err \<longrightarrow>
     matchedAttrib P ''http://example.com#top'' \<lparr>Key = ''href'', Val = ''//cdn.com/x''\<rparr> ''href'' out
       = Inr (out @ [''//cdn.com/x'', ''https://cdn.com/x''])
     \<and> (P ''ftp://files.example.org/x'' = Inr w \<longrightarrow>
          matchedAttrib P ''http://example.com#top''
            \<lparr>Key = ''href'', Val = ''ftp://files.example.org/x''\<rparr> ''href'' out
          = Inr (out @ [''ftp://files.example.org/x'', ''ftp://files.example.org/x'']))
     \<and> matchedAttrib P ''http://example.com#top'' \<lparr>Key = ''href'', Val = ''/img/a.png''\<rparr> ''href'' out
         = Inl NilPointerDereference
     \<and> (P ''a.png'' = Inl e \<longrightarrow>
          matchedAttrib P ''http://example.com#top'' \<lparr>Key = ''href'', Val = ''a.png''\<rparr> ''href'' out
          = Inl NilPointerDereference)
     \<and> extractAttribs P
          \<lparr>location = ''http://example.com#top'',
           r = \<lparr>tokens = [\<lparr>Type = StartTagToken, Data = ''a'',
                            Attr = [\<lparr>Key = ''href'', Val = ''//cdn.com/x''\<rparr>]\<rparr>],
                parsed = d\<rparr>\<rparr> [''href'']
         = Inr [''//cdn.com/x'', ''https://cdn.com/x'']"
proof
  assume bad: "P ''http://example.com#top'' = Inl err"
  have url: "HasPrefix (ToLower ''http://example.com#top'') ''http:''"
    by (simp add: HasPrefix_def ToLower_def lowerByte_def)
  have pre: "HasPrefix ''//cdn.com/x'' ''//''"
    "\<not> HasPrefix ''ftp://files.example.org/x'' ''//''" "\<not> HasPrefix ''ftp://files.example.org/x'' ''/''"
    "\<not> HasPrefix ''/img/a.png'' ''//''" "HasPrefix ''/img/a.png'' ''/''"
    "\<not> HasPrefix ''a.png'' ''//''" "\<not> HasPrefix ''a.png'' ''/''"
    by (simp_all add: HasPrefix_def)
  show "matchedAttrib P ''http://example.com#top'' \<lparr>Key = ''href'', Val = ''//cdn.com/x''\<rparr> ''href'' out
       = Inr (out @ [''//cdn.com/x'', ''https://cdn.com/x''])
     \<and> (P ''ftp://files.example.org/x'' = Inr w \<longrightarrow>
          matchedAttrib P ''http://example.com#top''
            \<lparr>Key = ''href'', Val = ''ftp://files.example.org/x''\<rparr> ''href'' out
          = Inr (out @ [''ftp://files.example.org/x'', ''ftp://files.example.org/x'']))
     \<and> matchedAttrib P ''http://example.com#top'' \<lparr>Key = ''href'', Val = ''/img/a.png''\<rparr> ''href'' out
         = Inl NilPointerDereference
     \<and> (P ''a.png'' = Inl e \<longrightarrow>
          matchedAttrib P ''http://example.com#top'' \<lparr>Key = ''href'', Val = ''a.png''\<rparr> ''href'' out
          = Inl NilPointerDereference)
     \<and> extractAttribs P
          \<lparr>location = ''http://example.com#top'',
           r = \<lparr>tokens = [\<lparr>Type = StartTagToken, Data = ''a'',
                            Attr = [\<lparr>Key = ''href'', Val = ''//cdn.com/x''\<rparr>]\<rparr>],
                parsed = d\<rparr>\<rparr> [''href'']
         = Inr [''//cdn.com/x'', ''https://cdn.com/x'']"
    by (simp add: matchedAttrib_def extractAttribs_def url bad pre)
qed

theorem unparsable_origin_breaks_normalization_rule_witness:
  "matchedAttrib plainRequestURI ''http://example.com#top''
     \<lparr>Key = ''href'', Val = ''ftp://files.example.org/x''\<rparr> ''href'' []
     = Inr [''ftp://files.example.org/x'', ''ftp://files.example.org/x'']
   \<and> matchedAttrib plainRequestURI ''http://example.com#top'' \<lparr>Key = ''href'', Val = ''a.png''\<rparr>
       ''href'' [] = Inl NilPointerDereference
   \<and> extractAttribs plainRequestURI
          \<lparr>location = ''http://example.com#top'',
           r = \<lparr>tokens = [\<lparr>Type = StartTagToken, Data = ''a'',
                            Attr = [\<lparr>Key = ''href'', Val = ''//cdn.com/x''\<rparr>]\<rparr>],
                parsed = Inl []\<rparr>\<rparr> [''href'']
         = Inr [''//cdn.com/x'', ''https://cdn.com/x'']"
proof -
  have bad: "plainRequestURI ''http://example.com#top'' = Inl ''invalid URI for request''"
    by code_simp
  have ftp: "plainRequestURI ''ftp://files.example.org/x''
         = Inr \<lparr>Scheme = ''ftp'', Host = ''files.example.org'', Path = ''/x''\<rparr>"
    by code_simp
  have rel: "plainRequestURI ''a.png'' = Inl ''invalid URI for request''"
    by code_simp
  note all = unparsable_origin_breaks_normalization_rule
      [where P = plainRequestURI and err = "''invalid URI for request''" and out = "[]"
         and w = "\<lparr>Scheme = ''ftp'', Host = ''files.example.org'', Path = ''/x''\<rparr>"
         and e = "''invalid URI for request''" and d = "Inl []", rule_format, OF bad]
  note twice = all [THEN conjunct2, THEN conjunct1, rule_format, OF ftp]
  note nil = all [THEN conjunct2, THEN conjunct2, THEN conjunct2, THEN conjunct1, rule_format, OF rel]
  note doc = all [THEN conjunct2, THEN conjunct2, THEN conjunct2, THEN conjunct2]
  from twice nil doc show ?thesis
    by simp
qed



text \<open>
  C1 fails on the code for an \<open>http:\<close> origin: line 226 reads
  \<open>A || B && C\<close>, so the test for \<open>src\<close> and \<open>href\<close> guards the \<open>https:\<close> prefix
  only. The value \<open>//pic\<close> of an \<open>alt\<close> attribute is rewritten to \<open>https://pic\<close>
  on the origin \<open>http://example.com/page.html\<close>, whatever the parser makes of the
  origin, and is emitted as it stands on \<open>https://example.com/page.html\<close>.
\<close>

theorem http_origin_normalizes_any_attribute:
  "extractAttribs P \<lparr>location = ''http://example.com/page.html'', r = pageB\<rparr> [''alt'']
     = Inr ((case P ''http://example.com/page.html'' of Inl e \<Rightarrow> [''//pic''] | Inr u \<Rightarrow> [])
            @ [''https://pic''])
   \<and> extractAttribs P \<lparr>location = ''https://example.com/page.html'', r = pageB\<rparr> [''alt'']
     = Inr [''//pic'']"
proof
  have pre: "HasPrefix (ToLower ''http://example.com/page.html'') ''http:''"
    by (simp add: HasPrefix_def ToLower_def lowerByte_def)
  show "extractAttribs P \<lparr>location = ''http://example.com/page.html'', r = pageB\<rparr> [''alt'']
     = Inr ((case P ''http://example.com/page.html'' of Inl e \<Rightarrow> [''//pic''] | Inr u \<Rightarrow> [])
            @ [''https://pic''])"
    by (simp add: extractAttribs_def pageB_def matchedAttrib_def pre
          HasPrefix_def [of "''//pic''"] split: sum.splits)
next
  have pre: "\<not> (HasPrefix (ToLower ''https://example.com/page.html'') ''http:''
                \<or> HasPrefix (ToLower ''https://example.com/page.html'') ''https:''
                  \<and> (''alt'' = ''src'' \<or> ''alt'' = ''href''))"
    by (simp add: HasPrefix_def ToLower_def lowerByte_def)
  show "extractAttribs P \<lparr>location = ''https://example.com/page.html'', r = pageB\<rparr> [''alt'']
     = Inr [''//pic'']"
    by (simp add: extractAttribs_def pageB_def matchedAttrib_raw [OF pre])
qed

subsection \<open>Tags mode\<close>

lemma tagsRange_count:
  "tagsRange t tags z out =
     (drop (count_list tags (Data t)) z,
      out @ concat (map (\<lambda>n. if Type n = TextToken \<and> TrimSpace (Data n) \<noteq> []
                               then [TrimSpace (Data n)] else [])
                      (take (count_list tags (Data t)) z)))"
proof (induction tags arbitrary: z out)
  case Nil
  show ?case by simp
next
  case (Cons tag tags)
  note IH = Cons.IH
  show ?case
  proof (cases "Data t = tag")
    case False
    with IH [of z out] show ?thesis by simp
  next
    case True
    show ?thesis
    proof (cases z)
      case Nil
      with True IH [of "[]" out] show ?thesis by simp
    next
      case (Cons n z')
      with True IH [of z' out] IH [of z' "out @ [TrimSpace (Data n)]"]
      show ?thesis by (simp add: Let_def)
    qed
  qed
qed

lemma count_list_distinct:
  "distinct xs \<Longrightarrow> x \<in> set xs \<Longrightarrow> count_list xs x = 1"
  by (induction xs) (auto simp: count_list_0_iff)

lemma tagsLoop_Nil: "tagsLoop [] tags out = out"
  by (simp add: tagsLoop.simps [of "[]"])

lemma tagsLoop_Cons:
  "tagsLoop (t # z) tags out =
     (if Type t = StartTagToken then
        tagsLoop (drop (count_list tags (Data t)) z) tags
          (out @ concat (map (\<lambda>n. if Type n = TextToken \<and> TrimSpace (Data n) \<noteq> []
                                   then [TrimSpace (Data n)] else [])
                          (take (count_list tags (Data t)) z)))
      else tagsLoop z tags out)"
  by (simp add: tagsLoop.simps [of "t # z"] tagsRange_count)

lemma tagsLoop_out: "tagsLoop z tags out = out @ tagsLoop z tags []"
proof (induction "length z" arbitrary: z out rule: less_induct)
  case less
  show ?case
  proof (cases z)
    case Nil
    then show ?thesis by (simp add: tagsLoop_Nil)
  next
    case (Cons t z')
    let ?k = "count_list tags (Data t)"
    let ?e = "concat (map (\<lambda>n. if Type n = TextToken \<and> TrimSpace (Data n) \<noteq> []
                               then [TrimSpace (Data n)] else []) (take ?k z'))"
    from Cons have short: "length (drop ?k z') < length z" and short': "length z' < length z"
      by simp_all
    from less [OF short, of "out @ ?e"] less [OF short, of ?e] less [OF short', of out]
    show ?thesis
      unfolding Cons tagsLoop_Cons by simp
  qed
qed

lemma extractTags_Cons:
  "extractTags (rd\<lparr>tokens := t # z\<rparr>) tags =
     (if Type t = StartTagToken then
        concat (map (\<lambda>n. if Type n = TextToken \<and> TrimSpace (Data n) \<noteq> []
                          then [TrimSpace (Data n)] else [])
                 (take (count_list tags (Data t)) z))
        @ extractTags (rd\<lparr>tokens := drop (count_list tags (Data t)) z\<rparr>) tags
      else extractTags (rd\<lparr>tokens := z\<rparr>) tags)"
  using tagsLoop_out [of "drop (count_list tags (Data t)) z" tags
          "concat (map (\<lambda>n. if Type n = TextToken \<and> TrimSpace (Data n) \<noteq> []
                          then [TrimSpace (Data n)] else [])
                 (take (count_list tags (Data t)) z))"]
  by (simp add: extractTags_def tagsLoop_Cons)

text \<open>
  C5 as stated fails when a requested name is given twice: each occurrence of the name
  in the argument list calls \<open>z.Next()\<close>, so for \<open>tags a a\<close> the start tag \<open><a>\<close>
  consumes two tokens and the text behind the \<open><b>\<close> that follows it is emitted,
  although the token next to the matching start tag is not a text token. With the name
  given once the same document gives nothing. A consumed token is not looked at again:
  for \<open>tags a b\<close> the start tag \<open><b>\<close>, consumed as the token next to \<open><a>\<close>, is
  never tested against the names, and the text that follows it is not emitted.
\<close>

theorem repeated_tag_name_consumes_two_tokens:
  "extractTags
     \<lparr>tokens = [\<lparr>Type = StartTagToken, Data = ''a'', Attr = []\<rparr>,
                \<lparr>Type = StartTagToken, Data = ''b'', Attr = []\<rparr>,
                \<lparr>Type = TextToken, Data = '' foo '', Attr = []\<rparr>],
      parsed = Inl []\<rparr> [''a'', ''a''] = [''foo'']
   \<and> extractTags
     \<lparr>tokens = [\<lparr>Type = StartTagToken, Data = ''a'', Attr = []\<rparr>,
                \<lparr>Type = StartTagToken, Data = ''b'', Attr = []\<rparr>,
                \<lparr>Type = TextToken, Data = '' foo '', Attr = []\<rparr>],
      parsed = Inl []\<rparr> [''a''] = []
   \<and> extractTags
     \<lparr>tokens = [\<lparr>Type = StartTagToken, Data = ''a'', Attr = []\<rparr>,
                \<lparr>Type = StartTagToken, Data = ''b'', Attr = []\<rparr>,
                \<lparr>Type = TextToken, Data = '' foo '', Attr = []\<rparr>],
      parsed = Inl []\<rparr> [''a'', ''b''] = []"
proof -
  have "TrimSpace '' foo '' = ''foo''"
    by code_simp
  then show ?thesis
    by (simp add: extractTags_def tagsLoop_Cons tagsLoop_Nil)
qed

text \<open>
  C5, amended. When the requested tag names are pairwise distinct: a start-tag token the
  loop reaches (one that no earlier match has consumed) whose name is one of them
  consumes exactly the one token that follows it; that token adds its trimmed data to the output if and only if it is a text token
  whose data is not empty after trimming, and extraction goes on behind it, so a
  matching start tag followed by a token of another type gives nothing for that
  occurrence, and one at the end of the input gives nothing at all. Every other token
  the loop reaches gives nothing and consumes nothing.
\<close>

theorem tags_emit_trimmed_text_of_next_token:
  assumes "distinct tags"
  shows "(Type t = StartTagToken \<and> Data t \<in> set tags \<longrightarrow>
            extractTags (rd\<lparr>tokens := t # n # z\<rparr>) tags =
              (if Type n = TextToken \<and> TrimSpace (Data n) \<noteq> [] then [TrimSpace (Data n)] else [])
              @ extractTags (rd\<lparr>tokens := z\<rparr>) tags)
         \<and> (Type t = StartTagToken \<and> Data t \<in> set tags \<longrightarrow>
              extractTags (rd\<lparr>tokens := [t]\<rparr>) tags = [])
         \<and> (\<not> (Type t = StartTagToken \<and> Data t \<in> set tags) \<longrightarrow>
              extractTags (rd\<lparr>tokens := t # z\<rparr>) tags = extractTags (rd\<lparr>tokens := z\<rparr>) tags)
         \<and> extractTags (rd\<lparr>tokens := []\<rparr>) tags = []"
proof (intro conjI impI)
  assume m: "Type t = StartTagToken \<and> Data t \<in> set tags"
  with assms have one: "count_list tags (Data t) = 1"
    by (simp add: count_list_distinct)
  from m show "extractTags (rd\<lparr>tokens := t # n # z\<rparr>) tags =
              (if Type n = TextToken \<and> TrimSpace (Data n) \<noteq> [] then [TrimSpace (Data n)] else [])
              @ extractTags (rd\<lparr>tokens := z\<rparr>) tags"
    by (simp add: extractTags_Cons one)
  from m show "extractTags (rd\<lparr>tokens := [t]\<rparr>) tags = []"
    by (simp add: extractTags_Cons one) (simp add: extractTags_def tagsLoop_Nil)
next
  assume "\<not> (Type t = StartTagToken \<and> Data t \<in> set tags)"
  then have "Type t = StartTagToken \<longrightarrow> count_list tags (Data t) = 0"
    by (simp add: count_list_0_iff)
  then show "extractTags (rd\<lparr>tokens := t # z\<rparr>) tags = extractTags (rd\<lparr>tokens := z\<rparr>) tags"
    by (simp add: extractTags_Cons)
next
  show "extractTags (rd\<lparr>tokens := []\<rparr>) tags = []"
    by (simp add: extractTags_def tagsLoop_Nil)
qed

theorem tags_emit_trimmed_text_of_next_token_witness:
  "extractTags pageB [''title'', ''a''] = [''Hi'']
   \<and> extractTags pageA [''title'', ''a''] = [''link'']"
proof -
  have d: "distinct [''title'', ''a'']"
    by simp
  have trim: "TrimSpace ''Hi'' = ''Hi''" "TrimSpace ''link'' = ''link''"
    by code_simp+
  have mB: "Type \<lparr>Type = StartTagToken, Data = ''title'', Attr = []\<rparr> = StartTagToken
            \<and> Data \<lparr>Type = StartTagToken, Data = ''title'', Attr = []\<rparr> \<in> set [''title'', ''a'']"
    by simp
  have mA: "Type \<lparr>Type = StartTagToken, Data = ''a'', Attr = [\<lparr>Key = ''href'', Val = ''/x''\<rparr>]\<rparr>
              = StartTagToken
            \<and> Data \<lparr>Type = StartTagToken, Data = ''a'', Attr = [\<lparr>Key = ''href'', Val = ''/x''\<rparr>]\<rparr>
              \<in> set [''title'', ''a'']"
    by simp
  note b = tags_emit_trimmed_text_of_next_token
      [OF d, where rd = pageB and t = "\<lparr>Type = StartTagToken, Data = ''title'', Attr = []\<rparr>"
         and n = "\<lparr>Type = TextToken, Data = ''Hi'', Attr = []\<rparr>"
         and z = "[\<lparr>Type = EndTagToken, Data = ''title'', Attr = []\<rparr>,
                   \<lparr>Type = CommentToken, Data = '' note '', Attr = []\<rparr>,
                   \<lparr>Type = StartTagToken, Data = ''img'',
                    Attr = [\<lparr>Key = ''src'', Val = ''a.png''\<rparr>, \<lparr>Key = ''alt'', Val = ''//pic''\<rparr>]\<rparr>]",
       THEN conjunct1, rule_format, OF mB]
  note a = tags_emit_trimmed_text_of_next_token
      [OF d, where rd = pageA
         and t = "\<lparr>Type = StartTagToken, Data = ''a'', Attr = [\<lparr>Key = ''href'', Val = ''/x''\<rparr>]\<rparr>"
         and n = "\<lparr>Type = TextToken, Data = ''link'', Attr = []\<rparr>"
         and z = "[\<lparr>Type = EndTagToken, Data = ''a'', Attr = []\<rparr>]",
       THEN conjunct1, rule_format, OF mA]
  from b have "extractTags pageB [''title'', ''a''] = [''Hi'']"
    by (simp add: pageB_def trim extractTags_def tagsLoop_Cons tagsLoop_Nil)
  moreover from a have "extractTags pageA [''title'', ''a''] = [''link'']"
    by (simp add: pageA_def trim extractTags_def tagsLoop_Cons tagsLoop_Nil)
  ultimately show ?thesis
    by simp
qed

end
